theory Spec2Isabelle
  imports Complex_Main "HOL-Library.Word" "HOL-Library.Sublist"
begin

unbundle bit_operations_syntax

section \<open>JavaScript values used by the voice interface\<close>

text \<open>
  A JavaScript string is a sequence of UTF-16 code units. String literals of the source
  are written with \<open>js\<close>, which turns an ASCII literal into its code units.
\<close>

type_synonym jsstring = "16 word list"

definition js :: "string \<Rightarrow> jsstring" where
  "js s = map of_char s"

text \<open>
  A JavaScript number (and an element of a \<open>Float32Array\<close>) is a finite value, one of
  the two infinities, or NaN. Finite values are kept as reals: every product computed by
  the audio utilities multiplies a 24-bit float by a 15- or 16-bit integer constant, or
  divides a 16-bit integer by a power of two, which a double represents exactly.
\<close>

datatype number = Num real | PosInfinity | NegInfinity | NaN

text \<open>The relational operator \<open>a < b\<close>: false as soon as one operand is NaN.\<close>

fun number_lt :: "number \<Rightarrow> number \<Rightarrow> bool" where
  "number_lt NaN _ = False"
| "number_lt _ NaN = False"
| "number_lt (Num a) (Num b) = (a < b)"
| "number_lt NegInfinity NegInfinity = False"
| "number_lt NegInfinity _ = True"
| "number_lt _ NegInfinity = False"
| "number_lt PosInfinity _ = False"
| "number_lt _ PosInfinity = True"

text \<open>\<open>Math.min\<close> and \<open>Math.max\<close> of two arguments: NaN if either is NaN.\<close>

fun Math_min :: "number \<Rightarrow> number \<Rightarrow> number" where
  "Math_min NaN _ = NaN"
| "Math_min _ NaN = NaN"
| "Math_min a b = (if number_lt b a then b else a)"

fun Math_max :: "number \<Rightarrow> number \<Rightarrow> number" where
  "Math_max NaN _ = NaN"
| "Math_max _ NaN = NaN"
| "Math_max a b = (if number_lt a b then b else a)"





text \<open>The exceptions raised by the platform functions the code calls.\<close>

datatype js_error = InvalidCharacterError | NotSupportedError

section \<open>Platform base64: btoa and atob\<close>

text \<open>
  \<open>btoa\<close> and \<open>atob\<close> are browser built-ins; they are modelled after the HTML standard
  (forgiving-base64 encode and decode, RFC 4648 alphabet). \<open>btoa\<close> throws
  InvalidCharacterError on a code unit above 255 and otherwise encodes the code units as
  bytes: three bytes give four sextets, a last group of one or two bytes gives two or
  three sextets and is padded with \<open>=\<close> (code unit 61) to four characters.
\<close>

definition base64_alphabet :: jsstring where
  "base64_alphabet = js ''ABCDEFGHIJKLMNOPQRSTUVWXYZabcdefghijklmnopqrstuvwxyz0123456789+/''"

definition base64_char :: "nat \<Rightarrow> 16 word" where
  "base64_char n = base64_alphabet ! n"

fun sextets_of_bytes :: "nat list \<Rightarrow> nat list" where
  "sextets_of_bytes (a # b # c # rest) =
     [a div 4, (a mod 4) * 16 + b div 16, (b mod 16) * 4 + c div 64, c mod 64]
       @ sextets_of_bytes rest"
| "sextets_of_bytes [a, b] = [a div 4, (a mod 4) * 16 + b div 16, (b mod 16) * 4]"
| "sextets_of_bytes [a] = [a div 4, (a mod 4) * 16]"
| "sextets_of_bytes [] = []"

definition base64_encode :: "nat list \<Rightarrow> jsstring" where
  "base64_encode bs =
     map base64_char (sextets_of_bytes bs) @ replicate ((3 - length bs mod 3) mod 3) 61"

definition btoa :: "jsstring \<Rightarrow> js_error + jsstring" where
  "btoa s = (if list_ex (\<lambda>c. 255 < c) s then Inl InvalidCharacterError
             else Inr (base64_encode (map unat s)))"

text \<open>
  \<open>atob\<close> removes ASCII whitespace, removes one or two trailing \<open>=\<close> when the length is
  a multiple of four, fails when the remaining length is 1 modulo 4 or a character is
  outside the alphabet, and otherwise turns each group of four sextets into three bytes;
  a last group of two or three sextets gives one or two bytes, its spare bits dropped.
  The result is the string whose code units are those bytes.
\<close>

definition is_ascii_whitespace :: "16 word \<Rightarrow> bool" where
  "is_ascii_whitespace c = (c = 9 \<or> c = 10 \<or> c = 12 \<or> c = 13 \<or> c = 32)"

definition strip_padding :: "jsstring \<Rightarrow> jsstring" where
  "strip_padding s =
     (if length s mod 4 = 0 then
        (case rev s of
           x # y # r \<Rightarrow> if x = 61 then (if y = 61 then rev r else rev (y # r)) else s
         | _ \<Rightarrow> s)
      else s)"

fun index_of :: "'a list \<Rightarrow> 'a \<Rightarrow> nat option" where
  "index_of [] x = None"
| "index_of (y # ys) x = (if x = y then Some 0 else map_option Suc (index_of ys x))"

definition base64_value :: "16 word \<Rightarrow> nat option" where
  "base64_value c = index_of base64_alphabet c"

fun bytes_of_sextets :: "nat list \<Rightarrow> nat list" where
  "bytes_of_sextets (p # q # r # s # rest) =
     [p * 4 + q div 16, (q mod 16) * 16 + r div 4, (r mod 4) * 64 + s] @ bytes_of_sextets rest"
| "bytes_of_sextets [p, q, r] = [p * 4 + q div 16, (q mod 16) * 16 + r div 4]"
| "bytes_of_sextets [p, q] = [p * 4 + q div 16]"
| "bytes_of_sextets _ = []"

definition atob :: "jsstring \<Rightarrow> js_error + jsstring" where
  "atob input =
     (let d = strip_padding (filter (\<lambda>c. \<not> is_ascii_whitespace c) input) in
      if length d mod 4 = 1 then Inl InvalidCharacterError
      else case those (map base64_value d) of
             None \<Rightarrow> Inl InvalidCharacterError
           | Some v \<Rightarrow> Inr (map of_nat (bytes_of_sextets v)))"

section \<open>services/audioUtils.ts\<close>

subsection \<open>encode and decode\<close>

text \<open>
  \<open>encode\<close> builds the binary string \<open>String.fromCharCode(bytes[i])\<close>, one code unit per
  byte, and returns \<open>btoa\<close> of it. \<open>decode\<close> takes \<open>atob\<close> of its argument and stores
  \<open>charCodeAt(i)\<close> into a \<open>Uint8Array\<close>, which keeps the low eight bits.
\<close>

definition encode :: "8 word list \<Rightarrow> js_error + jsstring" where
  "encode bytes = btoa (map ucast bytes)"

definition decode :: "jsstring \<Rightarrow> js_error + 8 word list" where
  "decode base64 =
     (case atob base64 of Inl e \<Rightarrow> Inl e | Inr binaryString \<Rightarrow> Inr (map ucast binaryString))"

subsection \<open>createBlob\<close>

text \<open>
  The body of the loop of \<open>createBlob\<close>:
  \<^verbatim>\<open>const s = Math.max(-1, Math.min(1, data[i]));\<close>
  \<^verbatim>\<open>int16[i] = s < 0 ? s * 32768 : s * 32767;\<close>
\<close>

definition clamp_sample :: "number \<Rightarrow> number" where
  "clamp_sample x = Math_max (Num (- 1)) (Math_min (Num 1) x)"




record blob =
  data :: jsstring
  mimeType :: jsstring



subsection \<open>decodeAudioData\<close>

text \<open>
  \<open>new Int16Array(data.buffer, data.byteOffset, data.byteLength / 2)\<close> views the bytes
  of \<open>data\<close> as 16-bit elements, low byte first; the length argument is truncated to an
  integer, so a last odd byte is not part of the view. (The byte arrays passed here come
  from \<open>decode\<close>, whose result starts at offset 0 of its own buffer.)
\<close>

fun int16_view :: "8 word list \<Rightarrow> 16 word list" where
  "int16_view (lo # hi # rest) = word_cat hi lo # int16_view rest"
| "int16_view _ = []"

text \<open>
  An \<open>AudioBuffer\<close>: \<open>frames\<close> is its \<open>length\<close> property, \<open>channelData\<close> holds the
  \<open>Float32Array\<close> of each channel, and \<open>duration\<close> is \<open>length / sampleRate\<close>.
\<close>

record audio_buffer =
  numberOfChannels :: nat
  frames :: nat
  sampleRate :: real
  channelData :: "number list list"

definition duration :: "audio_buffer \<Rightarrow> real" where
  "duration b = real (frames b) / sampleRate b"

text \<open>
  \<open>ctx.createBuffer\<close> throws NotSupportedError when the channel count or the length is
  zero, and otherwise returns a buffer of zeros. The implementation-defined upper limits
  on the channel count and the range of sample rates are not modelled; the component asks
  for one channel at 24000 Hz.
\<close>

definition createBuffer :: "nat \<Rightarrow> nat \<Rightarrow> real \<Rightarrow> js_error + audio_buffer" where
  "createBuffer numChannels frameCount rate =
     (if numChannels = 0 \<or> frameCount = 0 then Inl NotSupportedError
      else Inr \<lparr>numberOfChannels = numChannels, frames = frameCount, sampleRate = rate,
                channelData = replicate numChannels (replicate frameCount (Num 0))\<rparr>)"

text \<open>
  Reading \<open>dataInt16[k] / 32768.0\<close>: an index past the end reads \<open>undefined\<close>, whose
  quotient is NaN. A 16-bit integer divided by \<open>2 ^ 15\<close> is exact in a \<open>Float32Array\<close>.
\<close>

definition int16_sample :: "16 word list \<Rightarrow> nat \<Rightarrow> number" where
  "int16_sample dataInt16 k =
     (if k < length dataInt16 then Num (real_of_int (sint (dataInt16 ! k)) / 32768) else NaN)"

text \<open>
  The two loops of \<open>decodeAudioData\<close>. \<open>frameCount\<close> is the quotient
  \<open>dataInt16.length / numChannels\<close>, not rounded: \<open>createBuffer\<close> truncates it to the
  buffer length, while the inner loop runs for every integer \<open>i\<close> below it, that is up
  to the quotient rounded up. A write past the end of a channel's array is ignored, as
  \<open>list_update\<close> does.
\<close>

definition fill_channel :: "16 word list \<Rightarrow> nat \<Rightarrow> nat \<Rightarrow> number list \<Rightarrow> number list" where
  "fill_channel dataInt16 numChannels channel channelData0 =
     fold (\<lambda>i cd. cd[i := int16_sample dataInt16 (i * numChannels + channel)])
       [0 ..< (length dataInt16 + numChannels - 1) div numChannels] channelData0"

definition fill_buffer :: "16 word list \<Rightarrow> nat \<Rightarrow> number list list \<Rightarrow> number list list" where
  "fill_buffer dataInt16 numChannels chans =
     fold (\<lambda>channel cs. cs[channel := fill_channel dataInt16 numChannels channel (cs ! channel)])
       [0 ..< numChannels] chans"

definition decodeAudioData :: "8 word list \<Rightarrow> real \<Rightarrow> nat \<Rightarrow> js_error + audio_buffer" where
  "decodeAudioData bytes rate numChannels =
     (let dataInt16 = int16_view bytes in
      case createBuffer numChannels (length dataInt16 div numChannels) rate of
        Inl e \<Rightarrow> Inl e
      | Inr buffer \<Rightarrow>
          Inr (buffer\<lparr>channelData := fill_buffer dataInt16 numChannels (channelData buffer)\<rparr>))"

section \<open>String operations of the component\<close>

text \<open>
  \<open>s.split('\n')\<close> cuts at every line feed (code unit 10); a string without one, the
  empty string included, gives a single piece.
\<close>

fun split_lines :: "jsstring \<Rightarrow> jsstring list" where
  "split_lines [] = [[]]"
| "split_lines (c # cs) =
     (if c = 10 then [] # split_lines cs
      else (case split_lines cs of l # ls \<Rightarrow> (c # l) # ls | [] \<Rightarrow> [[c]]))"

definition startsWith :: "jsstring \<Rightarrow> jsstring \<Rightarrow> bool" where
  "startsWith s p = (take (length p) s = p)"

text \<open>\<open>s.includes(p)\<close>: \<open>p\<close> occurs in \<open>s\<close> at some position.\<close>

definition string_includes :: "jsstring \<Rightarrow> jsstring \<Rightarrow> bool" where
  "string_includes s p = list_ex (\<lambda>i. startsWith (drop i s) p) [0 ..< Suc (length s)]"

text \<open>
  \<open>s.trim()\<close> removes leading and trailing white space and line terminators: TAB, LF, VT,
  FF, CR, SPACE, NBSP, the Unicode space separators, LS, PS and the byte order mark.
\<close>

definition is_js_whitespace :: "16 word \<Rightarrow> bool" where
  "is_js_whitespace c =
     (c = 9 \<or> c = 10 \<or> c = 11 \<or> c = 12 \<or> c = 13 \<or> c = 32 \<or> c = 160 \<or> c = 5760
      \<or> (8192 \<le> c \<and> c \<le> 8202) \<or> c = 8232 \<or> c = 8233 \<or> c = 8239 \<or> c = 8287
      \<or> c = 12288 \<or> c = 65279)"

definition trim :: "jsstring \<Rightarrow> jsstring" where
  "trim s = rev (dropWhile is_js_whitespace (rev (dropWhile is_js_whitespace s)))"

section \<open>The voice interface component\<close>

subsection \<open>parseTranslatedConversation\<close>

text \<open>The roles \<open>'user'\<close> and \<open>'ai'\<close>.\<close>

datatype role = User | AI

text \<open>
  An element \<open>{ role, translatedText }\<close> of \<open>parsedTranslations\<close> is a pair. The loop
  state is \<open>(parsedTranslations, currentRole, currentText)\<close>; \<open>currentRole\<close> is \<open>None\<close>
  for \<open>null\<close>. \<open>push_current\<close> is the statement
  \<^verbatim>\<open>if (currentRole && currentText) parsedTranslations.push(...)\<close>,
  where an empty string is falsy.
\<close>

type_synonym parsed_translation = "role \<times> jsstring"

definition push_current ::
  "role option \<Rightarrow> jsstring \<Rightarrow> parsed_translation list \<Rightarrow> parsed_translation list" where
  "push_current currentRole currentText parsedTranslations =
     (case currentRole of
        None \<Rightarrow> parsedTranslations
      | Some r \<Rightarrow> if currentText \<noteq> [] then parsedTranslations @ [(r, trim currentText)]
                  else parsedTranslations)"

fun parse_line ::
  "parsed_translation list \<times> role option \<times> jsstring \<Rightarrow> jsstring
     \<Rightarrow> parsed_translation list \<times> role option \<times> jsstring" where
  "parse_line (parsedTranslations, currentRole, currentText) line =
     (if startsWith line (js ''User: '') then
        (push_current currentRole currentText parsedTranslations, Some User,
         drop (length (js ''User: '')) line)
      else if startsWith line (js ''AI: '') then
        (push_current currentRole currentText parsedTranslations, Some AI,
         drop (length (js ''AI: '')) line)
      else if currentText \<noteq> [] then
        (parsedTranslations, currentRole, currentText @ js '' '' @ trim line)
      else (parsedTranslations, currentRole, currentText))"

definition parse_finish ::
  "parsed_translation list \<times> role option \<times> jsstring \<Rightarrow> parsed_translation list" where
  "parse_finish st =
     (case st of (parsedTranslations, currentRole, currentText) \<Rightarrow>
        push_current currentRole currentText parsedTranslations)"

definition parseTranslatedConversation :: "jsstring \<Rightarrow> parsed_translation list" where
  "parseTranslatedConversation translatedText =
     parse_finish (foldl parse_line ([], None, []) (split_lines translatedText))"

text \<open>
  Two descriptions of the result, by recursion over the lines. \<open>line_prefix\<close> gives the
  role of a prefixed line and the text after its prefix; \<open>continuation\<close> is the run of
  unprefixed lines that follows a line; \<open>entry_text\<close> joins the text after the prefix and
  the trimmed continuation lines with single spaces and trims the result.

  \<open>parseTranslatedConversation_spec\<close> follows the words of the specification: every
  prefixed line opens an entry, the unprefixed lines after it are appended to it, and
  unprefixed lines before the first prefixed line are discarded.
  \<open>entries_with_text\<close> differs in one point: a prefixed line with nothing after its prefix
  gives no entry, and the unprefixed lines after it are discarded.
\<close>

definition line_prefix :: "jsstring \<Rightarrow> (role \<times> jsstring) option" where
  "line_prefix line =
     (if startsWith line (js ''User: '') then Some (User, drop 6 line)
      else if startsWith line (js ''AI: '') then Some (AI, drop 4 line)
      else None)"

definition continuation :: "jsstring list \<Rightarrow> jsstring list" where
  "continuation ls = takeWhile (\<lambda>l. line_prefix l = None) ls"

definition entry_text :: "jsstring \<Rightarrow> jsstring list \<Rightarrow> jsstring" where
  "entry_text first rest = trim (foldl (\<lambda>t l. t @ js '' '' @ trim l) first rest)"

fun entries_spec :: "jsstring list \<Rightarrow> parsed_translation list" where
  "entries_spec [] = []"
| "entries_spec (l # ls) =
     (case line_prefix l of
        None \<Rightarrow> entries_spec ls
      | Some (r, first) \<Rightarrow> (r, entry_text first (continuation ls)) # entries_spec ls)"

definition parseTranslatedConversation_spec :: "jsstring \<Rightarrow> parsed_translation list" where
  "parseTranslatedConversation_spec translatedText = entries_spec (split_lines translatedText)"

fun entries_with_text :: "jsstring list \<Rightarrow> parsed_translation list" where
  "entries_with_text [] = []"
| "entries_with_text (l # ls) =
     (case line_prefix l of
        None \<Rightarrow> entries_with_text ls
      | Some (r, first) \<Rightarrow>
          if first = [] then entries_with_text ls
          else (r, entry_text first (continuation ls)) # entries_with_text ls)"

subsection \<open>State of the component\<close>

datatype ConnectionStatus =
  Idle | Initializing | MicRequest | ConnectingAPI | Listening | Processing | Speaking | Error

datatype AccentRegion = Dhaka | Chittagong | Sylhet

datatype VoiceName = Kore | Puck | Charon | Fenrir | Zephyr

datatype ExportFormat = Mp3 | Wav

text \<open>A value of type \<open>number | null\<close> that may also be \<open>undefined\<close>.\<close>

datatype nullable_number = Null | Undefined | Number number

text \<open>
  A \<open>TranscriptItem\<close>; the optional fields are \<open>None\<close> when \<open>undefined\<close>. (The fields
  \<open>text\<close>, \<open>role\<close> and \<open>id\<close> carry the prefix \<open>item_\<close>.)
\<close>

record TranscriptItem =
  item_text :: jsstring
  item_role :: role
  item_id :: jsstring
  isVerified :: "bool option"
  translation :: "jsstring option"

datatype RecordingState = Inactive | Recording

text \<open>
  The state of \<open>VoiceInterface\<close>: its \<open>useState\<close> variables, the \<open>useRef\<close> cells the
  handlers read and write, what the callbacks of the running session captured when
  \<open>startSession\<close> created them, and the two parts of the environment the handlers act on:
  the browser's \<open>localStorage\<close> and the playback requests \<open>source.start(when)\<close> made on
  the output context, each with the duration of its buffer, in the order they were made.

  \<open>audioContext\<close> and \<open>sessionPromise\<close> tell whether the ref is non-null; \<open>mediaStream\<close> is
  \<open>None\<close> for \<open>null\<close> and otherwise holds the \<open>enabled\<close> flag of the stream's audio tracks;
  \<open>mediaRecorder\<close> is \<open>None\<close> for \<open>null\<close>; \<open>sources\<close> lists the members of \<open>sourcesRef\<close>, a
  source being named by the index of its playback request; \<open>recordedChunks\<close> counts the
  chunks held. Rates, delays and times, numbers in the source, are real numbers here.
\<close>

record VoiceInterface =
  isActive :: bool
  transcriptions :: "TranscriptItem list"
  isConnecting :: bool
  status :: ConnectionStatus
  selectedAccent :: AccentRegion
  speechRate :: real
  voicePitch :: real
  selectedVoiceName :: VoiceName
  isAgentTyping :: bool
  isMicMuted :: bool
  showTranslations :: bool
  isTranslating :: bool
  isAccentAutoDetected :: bool
  detectedAccentConfidence :: nullable_number
  typingSpeedDelay :: real
  isVoiceTrainingActive :: bool
  voiceTrainingProgress :: nat
  voiceTrainingStatus :: jsstring
  isRecordingSession :: bool
  showExportOptions :: bool
  selectedExportFormat :: ExportFormat
  isAutoAccentDetectionEnabled :: bool
  audioContext :: bool
  mediaStream :: "bool option"
  nextStartTime :: real
  sessionPromise :: bool
  sources :: "nat list"
  currentAiTranscription :: jsstring
  currentUserTranscription :: jsstring
  mediaRecorder :: "RecordingState option"
  recordedChunks :: nat
  sessionInitialText :: "jsstring option"
  sessionStatus :: ConnectionStatus
  localStorage :: "jsstring \<rightharpoonup> jsstring"
  started :: "(real \<times> real) list"

definition MIN_TYPING_SPEED_DELAY :: real where
  "MIN_TYPING_SPEED_DELAY = 2 / 100"

definition MAX_TYPING_SPEED_DELAY :: real where
  "MAX_TYPING_SPEED_DELAY = 10 / 100"

definition TYPING_SPEED_STEP :: real where
  "TYPING_SPEED_STEP = 2 / 100"

definition ACCENT_DETECTION_KEY :: jsstring where
  "ACCENT_DETECTION_KEY = js ''autoAccentDetectionEnabled''"

text \<open>
  \<open>loadAutoAccentDetectionState\<close> and \<open>saveAutoAccentDetectionState\<close>. Access to
  \<open>localStorage\<close> can throw; both functions catch the exception, so whether the access
  throws is an argument.
\<close>

definition loadAutoAccentDetectionState :: "bool \<Rightarrow> (jsstring \<rightharpoonup> jsstring) \<Rightarrow> bool" where
  "loadAutoAccentDetectionState getItem_throws storage =
     (if getItem_throws then False else storage ACCENT_DETECTION_KEY = Some (js ''true''))"

definition String_of_bool :: "bool \<Rightarrow> jsstring" where
  "String_of_bool b = (if b then js ''true'' else js ''false'')"

definition saveAutoAccentDetectionState :: "bool \<Rightarrow> bool \<Rightarrow> VoiceInterface \<Rightarrow> VoiceInterface" where
  "saveAutoAccentDetectionState setItem_throws enabled s =
     (if setItem_throws then s
      else s\<lparr>localStorage := (localStorage s)(ACCENT_DETECTION_KEY \<mapsto> String_of_bool enabled)\<rparr>)"

text \<open>The state after the first render, for a given content of \<open>localStorage\<close>.\<close>

definition initial_state :: "bool \<Rightarrow> (jsstring \<rightharpoonup> jsstring) \<Rightarrow> VoiceInterface" where
  "initial_state getItem_throws storage =
     \<lparr>isActive = False, transcriptions = [], isConnecting = False, status = Idle,
      selectedAccent = Dhaka, speechRate = 1, voicePitch = 1, selectedVoiceName = Kore,
      isAgentTyping = False, isMicMuted = False, showTranslations = False,
      isTranslating = False, isAccentAutoDetected = False, detectedAccentConfidence = Null,
      typingSpeedDelay = 4 / 100, isVoiceTrainingActive = False, voiceTrainingProgress = 0,
      voiceTrainingStatus = [], isRecordingSession = False, showExportOptions = False,
      selectedExportFormat = Mp3,
      isAutoAccentDetectionEnabled = loadAutoAccentDetectionState getItem_throws storage,
      audioContext = False, mediaStream = None, nextStartTime = 0, sessionPromise = False,
      sources = [], currentAiTranscription = [], currentUserTranscription = [],
      mediaRecorder = None, recordedChunks = 0, sessionInitialText = None,
      sessionStatus = Idle, localStorage = storage, started = []\<rparr>"

subsection \<open>addTranscription, stopSession, translateFullConversation\<close>

text \<open>
  \<open>addTranscription\<close> returns without a change when the text and the translation are
  both blank. The id, made from the clock and a random number, is an argument.
\<close>

definition addTranscription ::
  "jsstring \<Rightarrow> jsstring \<Rightarrow> role \<Rightarrow> bool option \<Rightarrow> jsstring option
     \<Rightarrow> VoiceInterface \<Rightarrow> VoiceInterface" where
  "addTranscription new_id txt r verified transl s =
     (if trim txt = [] \<and> (case transl of None \<Rightarrow> True | Some t \<Rightarrow> trim t = []) then s
      else s\<lparr>transcriptions := transcriptions s @
               [\<lparr>item_text = txt, item_role = r, item_id = new_id, isVerified = verified,
                 translation = transl\<rparr>]\<rparr>)"

definition stopSession :: "VoiceInterface \<Rightarrow> VoiceInterface" where
  "stopSession s =
     s\<lparr>sessionPromise := False,
       mediaStream := None,
       mediaRecorder := (if mediaRecorder s = Some Recording then Some Inactive
                         else mediaRecorder s),
       isRecordingSession := (if mediaRecorder s = Some Recording then False
                              else isRecordingSession s),
       audioContext := False,
       sources := [],
       isActive := False,
       isConnecting := False,
       status := Idle,
       nextStartTime := 0,
       isAgentTyping := False,
       isMicMuted := False,
       showTranslations := False,
       currentAiTranscription := [],
       currentUserTranscription := [],
       typingSpeedDelay := 4 / 100,
       detectedAccentConfidence := Null\<rparr>"

text \<open>
  \<open>translateFullConversation\<close>. The reply of the translation request is an argument:
  \<open>Translated t\<close> when \<open>generateContent\<close> returned, \<open>t\<close> being \<open>response.text\<close>
  (\<open>None\<close> when undefined), and \<open>TranslateFailed\<close> when the \<open>try\<close> block threw.
  The functional update maps every item to itself or to a copy with a new translation.
\<close>

datatype translate_reply = Translated "jsstring option" | TranslateFailed

fun nth_opt :: "'a list \<Rightarrow> nat \<Rightarrow> 'a option" where
  "nth_opt [] n = None"
| "nth_opt (x # xs) 0 = Some x"
| "nth_opt (x # xs) (Suc n) = nth_opt xs n"

definition apply_translation :: "parsed_translation list \<Rightarrow> nat \<times> TranscriptItem \<Rightarrow> TranscriptItem" where
  "apply_translation parsedTranslations p =
     (case p of (index, originalMsg) \<Rightarrow>
        (case nth_opt parsedTranslations index of
           Some (r, translatedText) \<Rightarrow>
             if r = item_role originalMsg then originalMsg\<lparr>translation := Some translatedText\<rparr>
             else originalMsg
         | None \<Rightarrow> originalMsg))"

definition translateFullConversation ::
  "translate_reply \<Rightarrow> jsstring \<Rightarrow> VoiceInterface \<Rightarrow> VoiceInterface" where
  "translateFullConversation reply new_id s =
     (let s1 = s\<lparr>isTranslating := True\<rparr>;
          s2 = (case reply of
                  Translated t \<Rightarrow>
                    (let translatedText = (case t of None \<Rightarrow> [] | Some x \<Rightarrow> x);
                         parsedTranslations = parseTranslatedConversation translatedText
                     in s1\<lparr>transcriptions :=
                              map (apply_translation parsedTranslations)
                                (enumerate 0 (transcriptions s1)),
                            showTranslations := True\<rparr>)
                | TranslateFailed \<Rightarrow>
                    addTranscription new_id (js ''Translation failed. Please try again.'') AI
                      None None s1)
      in s2\<lparr>isTranslating := False\<rparr>)"

subsection \<open>Tool calls\<close>

text \<open>
  A function call of the model, by name, with its arguments. A \<open>translate_conversation\<close>
  call also carries what its translation request will return and the id for the message
  added on failure. The responses sent back to the model are not part of the state.
\<close>

datatype function_call =
    check_order_status jsstring
  | detect_accent AccentRegion nullable_number
  | end_call
  | toggle_microphone bool
  | translate_conversation translate_reply jsstring
  | slow_typing_speed
  | speed_up_typing_speed
  | other_function jsstring

fun handle_function_call :: "function_call \<Rightarrow> VoiceInterface \<Rightarrow> VoiceInterface" where
  "handle_function_call (check_order_status order_id) s = s"
| "handle_function_call (detect_accent newAccent confidence) s =
     s\<lparr>selectedAccent := newAccent, detectedAccentConfidence := confidence,
       isAccentAutoDetected := True\<rparr>"
| "handle_function_call end_call s = s"
| "handle_function_call (toggle_microphone shouldMute) s =
     (case mediaStream s of
        None \<Rightarrow> s
      | Some enabled \<Rightarrow> s\<lparr>mediaStream := Some (\<not> shouldMute), isMicMuted := shouldMute\<rparr>)"
| "handle_function_call (translate_conversation reply new_id) s =
     translateFullConversation reply new_id s"
| "handle_function_call slow_typing_speed s =
     s\<lparr>typingSpeedDelay := min (typingSpeedDelay s + TYPING_SPEED_STEP) MAX_TYPING_SPEED_DELAY\<rparr>"
| "handle_function_call speed_up_typing_speed s =
     s\<lparr>typingSpeedDelay := max (typingSpeedDelay s - TYPING_SPEED_STEP) MIN_TYPING_SPEED_DELAY\<rparr>"
| "handle_function_call (other_function name) s = s"

text \<open>The loop \<open>for (const fc of message.toolCall.functionCalls)\<close>.\<close>

definition handle_function_calls :: "function_call list \<Rightarrow> VoiceInterface \<Rightarrow> VoiceInterface" where
  "handle_function_calls fcs s = fold handle_function_call fcs s"

subsection \<open>The session callbacks\<close>

text \<open>
  A message of the live session, reduced to what \<open>onmessage\<close> reads:
  \<open>toolCall.functionCalls\<close>, the texts of \<open>serverContent.outputTranscription\<close> and
  \<open>serverContent.inputTranscription\<close>, the base64 string
  \<open>serverContent.modelTurn.parts[0].inlineData.data\<close> and \<open>serverContent.turnComplete\<close>.
\<close>

record server_message =
  functionCalls :: "function_call list option"
  outputTranscription :: "jsstring option"
  inputTranscription :: "jsstring option"
  inlineData :: "jsstring option"
  turnComplete :: bool

text \<open>
  The test \<open>status !== 'Speaking'\<close> reads the \<open>status\<close> of the render in which
  \<open>startSession\<close> ran, kept in \<open>sessionStatus\<close>.
\<close>

definition accumulate_transcription :: "server_message \<Rightarrow> VoiceInterface \<Rightarrow> VoiceInterface" where
  "accumulate_transcription message s =
     (case outputTranscription message of
        Some t \<Rightarrow>
          s\<lparr>currentAiTranscription := currentAiTranscription s @ t,
            isAgentTyping := (if sessionStatus s \<noteq> Speaking then True else isAgentTyping s)\<rparr>
      | None \<Rightarrow>
          (case inputTranscription message of
             Some t \<Rightarrow> s\<lparr>currentUserTranscription := currentUserTranscription s @ t\<rparr>
           | None \<Rightarrow> s))"

text \<open>
  The playback of one chunk of response audio, \<open>currentTime\<close> being
  \<open>outputCtx.currentTime\<close> when the chunk arrives. \<open>decode\<close> and \<open>decodeAudioData\<close> can
  throw; the handler then ends with the state reached so far, returned as \<open>Inl\<close>.
\<close>

definition schedule_audio ::
  "real \<Rightarrow> jsstring \<Rightarrow> VoiceInterface \<Rightarrow> VoiceInterface + VoiceInterface" where
  "schedule_audio currentTime base64Audio s =
     (let s1 = s\<lparr>isAgentTyping := False, status := Speaking,
                  nextStartTime := max (nextStartTime s) currentTime\<rparr>
      in case decode base64Audio of
           Inl e \<Rightarrow> Inl s1
         | Inr decodedData \<Rightarrow>
             (case decodeAudioData decodedData 24000 1 of
                Inl e \<Rightarrow> Inl s1
              | Inr audioBuffer \<Rightarrow>
                  Inr (s1\<lparr>started := started s1 @ [(nextStartTime s1, duration audioBuffer)],
                          nextStartTime := nextStartTime s1 + duration audioBuffer,
                          sources := sources s1 @ [length (started s1)]\<rparr>)))"

definition turn_complete :: "jsstring \<Rightarrow> jsstring \<Rightarrow> VoiceInterface \<Rightarrow> VoiceInterface" where
  "turn_complete id1 id2 s =
     (let s1 = (if currentUserTranscription s \<noteq> [] then
                  (addTranscription id1 (currentUserTranscription s) User None None s)
                    \<lparr>currentUserTranscription := [], status := Processing\<rparr>
                else s)
      in if currentAiTranscription s1 \<noteq> [] then
           (addTranscription id2 (currentAiTranscription s1) AI None None s1)
             \<lparr>currentAiTranscription := [], isAgentTyping := False\<rparr>
         else s1)"

text \<open>
  \<open>onmessage\<close>: the tool calls, the transcription texts, the audio (a non-empty base64
  string), and the end of the turn. The two ids are those of the items that the end of a
  turn may add.
\<close>

definition onmessage ::
  "server_message \<Rightarrow> real \<Rightarrow> jsstring \<Rightarrow> jsstring \<Rightarrow> VoiceInterface \<Rightarrow> VoiceInterface" where
  "onmessage message currentTime id1 id2 s =
     (let s1 = (case functionCalls message of
                  None \<Rightarrow> s
                | Some fcs \<Rightarrow> handle_function_calls fcs s);
          s2 = accumulate_transcription message s1;
          played = (case inlineData message of
                      None \<Rightarrow> Inr s2
                    | Some base64Audio \<Rightarrow>
                        if base64Audio \<noteq> [] then schedule_audio currentTime base64Audio s2
                        else Inr s2)
      in case played of
           Inl s3 \<Rightarrow> s3
         | Inr s3 \<Rightarrow> if turnComplete message then turn_complete id1 id2 s3 else s3)"

text \<open>
  The \<open>ended\<close> listener of a source. The phrase looked for in the transcription of the
  model is the Bengali confirmation of the end of the call, given by its code units.
\<close>

definition end_call_phrase :: jsstring where
  "end_call_phrase =
     [2453, 2482, 32, 2486, 2503, 2487, 32, 2453, 2480, 2494, 32, 2489, 2458, 2509, 2459, 2503]"

definition source_ended :: "nat \<Rightarrow> VoiceInterface \<Rightarrow> VoiceInterface" where
  "source_ended source s =
     (let s1 = s\<lparr>sources := removeAll source (sources s)\<rparr>
      in if sources s1 = [] then
           (if string_includes (currentAiTranscription s1) end_call_phrase then stopSession s1
            else s1\<lparr>status := Listening\<rparr>)
         else s1)"

definition onopen :: "jsstring \<Rightarrow> VoiceInterface \<Rightarrow> VoiceInterface" where
  "onopen new_id s =
     (let s1 = s\<lparr>isActive := True, isConnecting := False, status := Listening\<rparr>
      in case sessionInitialText s of
           None \<Rightarrow> s1
         | Some initialText \<Rightarrow>
             if initialText \<noteq> [] then addTranscription new_id initialText User None None s1
             else s1)"

definition onerror :: "VoiceInterface \<Rightarrow> VoiceInterface" where
  "onerror s = (stopSession s)\<lparr>status := Error\<rparr>"

subsection \<open>startSession\<close>

text \<open>
  What the environment does during \<open>startSession\<close>: no audio input device is listed; or
  an exception with the given \<open>name\<close> and \<open>message\<close> is thrown inside the \<open>try\<close> block,
  before \<open>mediaStreamRef\<close> is set, after it, after \<open>audioContextRef\<close> is set, or after the
  recorder has started; or the block completes and the connection is under way.
\<close>

datatype fail_point = BeforeStream | AfterStream | AfterContexts | AfterRecorder

datatype start_outcome = NoAudioInput | Failed fail_point jsstring jsstring | Connecting

definition start_error_message :: "jsstring \<Rightarrow> jsstring \<Rightarrow> jsstring" where
  "start_error_message name message =
     (if name = js ''NotFoundError'' \<or> name = js ''DevicesNotFoundError'' then
        js ''Microphone not found. Please ensure a microphone is connected and enabled.''
      else if name = js ''NotAllowedError'' \<or> name = js ''PermissionDeniedError'' then
        js ''Microphone access denied. Please allow microphone permissions in your browser settings.''
      else if name = js ''NotReadableError'' \<or> name = js ''TrackStartError'' then
        js ''Microphone is in use or not accessible. Please check if another application is using it.''
      else js ''Failed to start session: '' @ message)"

definition session_setup :: "fail_point \<Rightarrow> VoiceInterface \<Rightarrow> VoiceInterface" where
  "session_setup reached s =
     (let s1 = (if reached = BeforeStream then s else s\<lparr>mediaStream := Some True\<rparr>);
          s2 = (if reached = BeforeStream \<or> reached = AfterStream then s1
                else s1\<lparr>audioContext := True\<rparr>)
      in if reached = AfterRecorder then
           s2\<lparr>mediaRecorder := Some Recording, isRecordingSession := True,
              status := ConnectingAPI\<rparr>
         else s2)"

text \<open>
  \<open>startSession\<close>, run to its end. The guard and the callbacks read the state of the
  render that created the function; for a click that is the current state.
\<close>

definition startSession ::
  "jsstring option \<Rightarrow> start_outcome \<Rightarrow> jsstring \<Rightarrow> VoiceInterface \<Rightarrow> VoiceInterface" where
  "startSession initialText outcome new_id s =
     (if isConnecting s \<or> isActive s then s
      else
        (let s1 = s\<lparr>isConnecting := True, status := Initializing, recordedChunks := 0\<rparr>
         in case outcome of
              NoAudioInput \<Rightarrow>
                (addTranscription new_id
                   (js ''No microphone devices found. Please connect a microphone and ensure it is enabled.'')
                   AI None None (s1\<lparr>status := Error\<rparr>))\<lparr>isConnecting := False\<rparr>
            | Failed reached name message \<Rightarrow>
                (addTranscription new_id (start_error_message name message) AI None None
                   ((session_setup reached s1)\<lparr>status := Error\<rparr>))\<lparr>isConnecting := False\<rparr>
            | Connecting \<Rightarrow>
                (session_setup AfterRecorder s1)
                  \<lparr>sessionPromise := True, sessionInitialText := initialText,
                   sessionStatus := status s\<rparr>))"

subsection \<open>The other handlers\<close>

text \<open>
  \<open>handleToggleAutoAccentDetection\<close>. When a session is active it calls \<open>stopSession\<close>
  and then \<open>startSession\<close>, which returns at its guard: the \<open>isActive\<close> it reads is the one
  of the same render, which is true.
\<close>

definition handleToggleAutoAccentDetection ::
  "bool \<Rightarrow> bool \<Rightarrow> VoiceInterface \<Rightarrow> VoiceInterface" where
  "handleToggleAutoAccentDetection newStatus setItem_throws s =
     (let s1 = saveAutoAccentDetectionState setItem_throws newStatus
                 (s\<lparr>isAutoAccentDetectionEnabled := newStatus\<rparr>)
      in if isActive s then stopSession s1 else s1)"

definition voice_training_stages :: "(nat \<times> jsstring) list" where
  "voice_training_stages =
     [(20, js ''Collecting audio data for analysis...''),
      (50, js ''Analyzing phonetic patterns and unique characteristics...''),
      (80, js ''Training AI model with new voice profile...''),
      (100, js ''Voice Training Complete!'')]"

definition handleInitiateVoiceTraining :: "VoiceInterface \<Rightarrow> VoiceInterface" where
  "handleInitiateVoiceTraining s =
     s\<lparr>isVoiceTrainingActive := True, voiceTrainingProgress := 0,
       voiceTrainingStatus := js ''Starting voice training...''\<rparr>"

definition voice_training_stage :: "nat \<Rightarrow> VoiceInterface \<Rightarrow> VoiceInterface" where
  "voice_training_stage k s =
     (case nth_opt voice_training_stages k of
        None \<Rightarrow> s
      | Some (progress, stage_status) \<Rightarrow>
          s\<lparr>voiceTrainingProgress := progress, voiceTrainingStatus := stage_status\<rparr>)"

definition voice_training_reset :: "VoiceInterface \<Rightarrow> VoiceInterface" where
  "voice_training_reset s =
     s\<lparr>isVoiceTrainingActive := False, voiceTrainingProgress := 0, voiceTrainingStatus := []\<rparr>"

text \<open>
  A click on an export format sets the format and calls \<open>handleExportRecording\<close>, which
  still reads the format of the current render. The download itself is outside the state.
\<close>

definition handleExportRecording :: "VoiceInterface \<Rightarrow> VoiceInterface \<Rightarrow> VoiceInterface" where
  "handleExportRecording render s =
     (if recordedChunks s = 0 then s
      else if selectedExportFormat render = Wav \<and> \<not> audioContext s then s
      else s\<lparr>showExportOptions := False\<rparr>)"

definition recorder_dataavailable :: "nat \<Rightarrow> VoiceInterface \<Rightarrow> VoiceInterface" where
  "recorder_dataavailable chunk_size s =
     (if 0 < chunk_size then s\<lparr>recordedChunks := Suc (recordedChunks s)\<rparr> else s)"

text \<open>The cleanup of the effects when the component unmounts.\<close>

definition unmount :: "VoiceInterface \<Rightarrow> VoiceInterface" where
  "unmount s =
     s\<lparr>recordedChunks := 0,
       mediaRecorder := (if mediaRecorder s = Some Recording then Some Inactive
                         else mediaRecorder s)\<rparr>"

subsection \<open>Events\<close>

text \<open>
  Everything that runs a handler of the component: the clicks and changes of its controls,
  the callbacks of the session, of the audio sources, of the microphone processor and of
  the recorder, its timers and its unmounting. The \<open>onaudioprocess\<close> callback sends the
  blob that \<open>createBlob\<close> makes of the microphone samples and changes nothing in the state.
\<close>

datatype event =
    Click_StartSession "jsstring option" start_outcome jsstring
  | Click_EndCall
  | Click_Close
  | Click_Accent AccentRegion
  | Click_InitiateVoiceTraining
  | Click_ExportOptions
  | Click_Export ExportFormat
  | Change_VoiceName VoiceName
  | Change_SpeechRate real
  | Change_VoicePitch real
  | Change_AutoAccentDetection bool bool
  | Session_Open jsstring
  | Session_Message server_message real jsstring jsstring
  | Session_Error
  | Session_Close
  | Source_Ended nat
  | Microphone_AudioProcess "number list"
  | Recorder_DataAvailable nat
  | Recorder_Stop
  | Timer_AccentHighlight
  | Timer_VoiceTrainingStage nat
  | Timer_VoiceTrainingReset
  | Unmount

fun step :: "event \<Rightarrow> VoiceInterface \<Rightarrow> VoiceInterface" where
  "step (Click_StartSession initialText outcome new_id) s =
     startSession initialText outcome new_id s"
| "step Click_EndCall s = stopSession s"
| "step Click_Close s = stopSession s"
| "step (Click_Accent accent) s = s\<lparr>selectedAccent := accent\<rparr>"
| "step Click_InitiateVoiceTraining s = handleInitiateVoiceTraining s"
| "step Click_ExportOptions s = s\<lparr>showExportOptions := \<not> showExportOptions s\<rparr>"
| "step (Click_Export format) s = handleExportRecording s (s\<lparr>selectedExportFormat := format\<rparr>)"
| "step (Change_VoiceName v) s = s\<lparr>selectedVoiceName := v\<rparr>"
| "step (Change_SpeechRate x) s = s\<lparr>speechRate := x\<rparr>"
| "step (Change_VoicePitch x) s = s\<lparr>voicePitch := x\<rparr>"
| "step (Change_AutoAccentDetection newStatus setItem_throws) s =
     handleToggleAutoAccentDetection newStatus setItem_throws s"
| "step (Session_Open new_id) s = onopen new_id s"
| "step (Session_Message message currentTime id1 id2) s =
     onmessage message currentTime id1 id2 s"
| "step Session_Error s = onerror s"
| "step Session_Close s = stopSession s"
| "step (Source_Ended source) s = source_ended source s"
| "step (Microphone_AudioProcess samples) s = s"
| "step (Recorder_DataAvailable chunk_size) s = recorder_dataavailable chunk_size s"
| "step Recorder_Stop s = s\<lparr>isRecordingSession := False\<rparr>"
| "step Timer_AccentHighlight s = s\<lparr>isAccentAutoDetected := False\<rparr>"
| "step (Timer_VoiceTrainingStage k) s = voice_training_stage k s"
| "step Timer_VoiceTrainingReset s = voice_training_reset s"
| "step Unmount s = unmount s"

definition run :: "event list \<Rightarrow> VoiceInterface \<Rightarrow> VoiceInterface" where
  "run es s = fold step es s"

subsection \<open>Events that run a translation\<close>

text \<open>
  A \<open>translate_conversation\<close> call whose translation request returned, and a message
  that carries such a call: the only place where \<open>translateFullConversation\<close> maps over
  the transcript.
\<close>

fun returns_translation :: "function_call \<Rightarrow> bool" where
  "returns_translation (translate_conversation (Translated t) new_id) = True"
| "returns_translation _ = False"

fun translates :: "event \<Rightarrow> bool" where
  "translates (Session_Message message currentTime id1 id2) =
     (case functionCalls message of
        None \<Rightarrow> False
      | Some fcs \<Rightarrow> list_ex returns_translation fcs)"
| "translates _ = False"

subsection \<open>Sequences of messages and the playback requests they make\<close>



section \<open>Clamping and conversion to 16 bits\<close>




lemma clamp_sample_NaN: "clamp_sample NaN = NaN"
  by (simp add: clamp_sample_def)





section \<open>Properties of encode and decode\<close>

lemma base64_alphabet_length: "length base64_alphabet = 64"
  by (simp add: base64_alphabet_def js_def)

lemma base64_alphabet_distinct: "distinct base64_alphabet"
  by (simp add: base64_alphabet_def js_def)

lemma base64_alphabet_no_padding: "61 \<notin> set base64_alphabet"
  by (simp add: base64_alphabet_def js_def)

lemma base64_alphabet_no_whitespace:
  "c \<in> set base64_alphabet \<Longrightarrow> \<not> is_ascii_whitespace c"
  by (auto simp add: base64_alphabet_def js_def is_ascii_whitespace_def)

lemma base64_char_in_alphabet: "n < 64 \<Longrightarrow> base64_char n \<in> set base64_alphabet"
  by (simp add: base64_char_def base64_alphabet_length)

lemma index_of_nth: "distinct xs \<Longrightarrow> n < length xs \<Longrightarrow> index_of xs (xs ! n) = Some n"
proof (induction xs arbitrary: n)
  case Nil
  then show ?case by simp
next
  case (Cons y ys)
  show ?case
  proof (cases n)
    case 0
    then show ?thesis by simp
  next
    case (Suc m)
    with Cons.prems have "m < length ys" "ys ! m \<noteq> y" "distinct ys"
      by auto
    with Cons.IH [of m] Suc show ?thesis by simp
  qed
qed

lemma base64_value_char: "n < 64 \<Longrightarrow> base64_value (base64_char n) = Some n"
  by (simp add: base64_value_def base64_char_def index_of_nth
      base64_alphabet_distinct base64_alphabet_length)

lemma sextet_bounds:
  fixes a b c :: nat
  assumes "b < 256" "c < 256"
  shows "(a mod 4) * 16 + b div 16 < 64" "(b mod 16) * 4 + c div 64 < 64"
    "(b mod 16) * 4 < 64" "(a mod 4) * 16 < 64"
  using assms by (auto simp: div_less_iff_less_mult)

lemma sextets_of_bytes_bound:
  "\<forall>b \<in> set bs. b < 256 \<Longrightarrow> \<forall>n \<in> set (sextets_of_bytes bs). n < 64"
proof (induction bs rule: sextets_of_bytes.induct)
  case (1 a b c rest)
  then have "a < 256" "b < 256" "c < 256" by simp_all
  then have "a div 4 < 64" "(a mod 4) * 16 + b div 16 < 64"
      "(b mod 16) * 4 + c div 64 < 64"
    by (simp_all add: div_less_iff_less_mult sextet_bounds)
  with 1 show ?case by simp
next
  case (2 a b)
  then have "a < 256" "b < 256" by simp_all
  then have "a div 4 < 64" "(a mod 4) * 16 + b div 16 < 64" "(b mod 16) * 4 < 64"
    by (simp_all add: div_less_iff_less_mult sextet_bounds)
  then show ?case by simp
next
  case (3 a)
  then have "a < 256" by simp
  then have "a div 4 < 64" "(a mod 4) * 16 < 64"
    by (simp_all add: div_less_iff_less_mult sextet_bounds)
  then show ?case by simp
next
  case 4
  then show ?case by simp
qed

lemma first_byte: "a div 4 * 4 + ((a mod 4) * 16 + b div 16) div 16 = a" if "b < (256::nat)"
proof -
  have "b div 16 < 16" using that by (simp add: div_less_iff_less_mult)
  then have "((a mod 4) * 16 + b div 16) div 16 = a mod 4" by simp
  then show ?thesis by simp
qed

lemma second_byte:
  "(((a mod 4) * 16 + b div 16) mod 16) * 16 + ((b mod 16) * 4 + c div 64) div 4 = b"
  if "b < (256::nat)" "c < (256::nat)"
proof -
  have 1: "b div 16 < 16" "c div 64 < 4" using that by (simp_all add: div_less_iff_less_mult)
  have "((a mod 4) * 16 + b div 16) mod 16 = b div 16" using 1 by simp
  moreover have "((b mod 16) * 4 + c div 64) div 4 = b mod 16" using 1 by simp
  ultimately show ?thesis by simp
qed

lemma third_byte: "(((b mod 16) * 4 + c div 64) mod 4) * 64 + c mod 64 = c" if "c < (256::nat)"
proof -
  have "c div 64 < 4" using that by (simp add: div_less_iff_less_mult)
  then have "((b mod 16) * 4 + c div 64) mod 4 = c div 64" by simp
  then show ?thesis by simp
qed

lemma bytes_of_sextets_of_bytes:
  "\<forall>b \<in> set bs. b < 256 \<Longrightarrow> bytes_of_sextets (sextets_of_bytes bs) = bs"
proof (induction bs rule: sextets_of_bytes.induct)
  case (1 a b c rest)
  then have "a < 256" "b < 256" "c < 256" by simp_all
  then have "a div 4 * 4 + ((a mod 4) * 16 + b div 16) div 16 = a"
      "(((a mod 4) * 16 + b div 16) mod 16) * 16 + ((b mod 16) * 4 + c div 64) div 4 = b"
      "(((b mod 16) * 4 + c div 64) mod 4) * 64 + c mod 64 = c"
    by (simp_all only: first_byte second_byte third_byte)
  with 1 show ?case by simp
next
  case (2 a b)
  then have "b < 256" by simp
  then have "a div 4 * 4 + ((a mod 4) * 16 + b div 16) div 16 = a"
      "(((a mod 4) * 16 + b div 16) mod 16) * 16 + ((b mod 16) * 4 + 0 div 64) div 4 = b"
    by (simp_all only: first_byte second_byte)
  then show ?case by simp
next
  case (3 a)
  have "a div 4 * 4 + ((a mod 4) * 16 + 0 div 16) div 16 = a"
    by (rule first_byte) simp
  then show ?case by simp
next
  case 4
  then show ?case by simp
qed

lemma unat_ucast_byte: "unat (ucast (b :: 8 word) :: 16 word) = unat b"
proof -
  have "unat b < 2 ^ 16"
    using unsigned_less [of b, where ?'a = nat] by simp
  then show ?thesis
    by (simp add: unsigned_ucast_eq take_bit_nat_eq_self)
qed

lemma unat_byte_bound: "unat (b :: 8 word) < 256"
  using unsigned_less [of b, where ?'a = nat] by simp

lemma ucast_byte_le: "\<not> 255 < (ucast (b :: 8 word) :: 16 word)"
  using unat_byte_bound [of b] by (simp add: word_less_nat_alt unat_ucast_byte)

lemma ucast_roundtrip: "(ucast (ucast (b :: 8 word) :: 16 word) :: 8 word) = b"
  by (simp add: ucast_up_ucast_id is_up)

lemma pad_cases:
  "(length (sextets_of_bytes bs) mod 4 = 0 \<and> (3 - length bs mod 3) mod 3 = 0)
 \<or> (length (sextets_of_bytes bs) mod 4 = 2 \<and> (3 - length bs mod 3) mod 3 = 2)
 \<or> (length (sextets_of_bytes bs) mod 4 = 3 \<and> (3 - length bs mod 3) mod 3 = 1)"
proof (induction bs rule: sextets_of_bytes.induct)
  case (1 a b c rest)
  have "length (a # b # c # rest) = length rest + 3"
    by simp
  then have "length (a # b # c # rest) mod 3 = length rest mod 3"
    by (simp only: mod_add_self2)
  moreover have "length (sextets_of_bytes (a # b # c # rest))
      = length (sextets_of_bytes rest) + 4"
    by simp
  then have "length (sextets_of_bytes (a # b # c # rest)) mod 4
      = length (sextets_of_bytes rest) mod 4"
    by (simp only: mod_add_self2)
  ultimately show ?case using 1 by (simp only:)
qed simp_all

lemma strip_padding_none:
  assumes "xs = [] \<or> last xs \<noteq> 61"
  shows "strip_padding xs = xs"
proof (cases xs rule: rev_cases)
  case Nil
  then show ?thesis by (simp add: strip_padding_def)
next
  case (snoc ys y)
  with assms have "y \<noteq> 61" by simp
  with snoc show ?thesis
    by (cases ys rule: rev_cases) (simp_all add: strip_padding_def)
qed

lemma strip_padding_one:
  assumes "length xs mod 4 = 3" "last xs \<noteq> 61"
  shows "strip_padding (xs @ [61]) = xs"
proof (cases xs rule: rev_cases)
  case Nil
  with assms(1) show ?thesis by simp
next
  case (snoc ys y)
  with assms(2) have y: "y \<noteq> 61" by simp
  have "length (xs @ [61]) mod 4 = 0"
    using assms(1) by (simp add: mod_Suc)
  moreover have "rev (xs @ [61]) = 61 # y # rev ys"
    using snoc by simp
  ultimately show ?thesis
    unfolding strip_padding_def using y snoc by simp
qed

lemma strip_padding_two:
  assumes "length xs mod 4 = 2"
  shows "strip_padding (xs @ [61, 61]) = xs"
proof -
  have "length (xs @ [61, 61]) mod 4 = 0"
    using assms by (simp add: mod_Suc)
  moreover have "rev (xs @ [61, 61]) = 61 # 61 # rev xs"
    by simp
  ultimately show ?thesis
    unfolding strip_padding_def by simp
qed

lemma strip_padding_append:
  assumes "xs = [] \<or> last xs \<noteq> 61"
    and "(length xs mod 4 = 0 \<and> k = 0) \<or> (length xs mod 4 = 2 \<and> k = 2)
       \<or> (length xs mod 4 = 3 \<and> k = 1)"
  shows "strip_padding (xs @ replicate k 61) = xs"
proof -
  from assms(2) consider "length xs mod 4 = 0" "k = 0" | "length xs mod 4 = 2" "k = 2"
    | "length xs mod 4 = 3" "k = 1" by auto
  then show ?thesis
  proof cases
    case 1
    then show ?thesis using assms(1) by (simp add: strip_padding_none)
  next
    case 2
    then show ?thesis by (simp add: numeral_2_eq_2 strip_padding_two)
  next
    case 3
    with assms(1) have "last xs \<noteq> 61" by auto
    with 3 show ?thesis by (simp add: strip_padding_one)
  qed
qed

lemma those_base64_value:
  "\<forall>n \<in> set sx. n < 64 \<Longrightarrow> those (map base64_value (map base64_char sx)) = Some sx"
  by (induction sx) (simp_all add: base64_value_char)


lemma base64_encode_no_whitespace:
  assumes "\<forall>b \<in> set bs. b < 256"
  shows "filter (\<lambda>c. \<not> is_ascii_whitespace c) (base64_encode bs) = base64_encode bs"
proof -
  have "\<not> is_ascii_whitespace c" if "c \<in> set (base64_encode bs)" for c
  proof -
    from that have "c = 61 \<or> (\<exists>n \<in> set (sextets_of_bytes bs). c = base64_char n)"
      by (auto simp: base64_encode_def)
    then show ?thesis
    proof
      assume "c = 61"
      then show ?thesis by (simp add: is_ascii_whitespace_def)
    next
      assume "\<exists>n \<in> set (sextets_of_bytes bs). c = base64_char n"
      then obtain n where "n \<in> set (sextets_of_bytes bs)" "c = base64_char n" by blast
      with sextets_of_bytes_bound [OF assms] have "c \<in> set base64_alphabet"
        by (simp add: base64_char_in_alphabet)
      then show ?thesis by (rule base64_alphabet_no_whitespace)
    qed
  qed
  then show ?thesis by (simp add: filter_id_conv)
qed

lemma base64_chars_last:
  assumes "\<forall>n \<in> set sx. n < 64"
  shows "map base64_char sx = [] \<or> last (map base64_char sx) \<noteq> 61"
proof (cases sx rule: rev_cases)
  case Nil
  then show ?thesis by simp
next
  case (snoc ys y)
  with assms have "base64_char y \<in> set base64_alphabet"
    by (simp add: base64_char_in_alphabet)
  with base64_alphabet_no_padding have "base64_char y \<noteq> 61" by auto
  with snoc show ?thesis by simp
qed

lemma atob_base64_encode:
  assumes "\<forall>b \<in> set bs. b < 256"
  shows "atob (base64_encode bs) = Inr (map of_nat bs)"
proof -
  let ?sx = "sextets_of_bytes bs"
  let ?cs = "map base64_char ?sx"
  have sx: "\<forall>n \<in> set ?sx. n < 64"
    by (rule sextets_of_bytes_bound [OF assms])
  have "strip_padding (base64_encode bs) = ?cs"
    unfolding base64_encode_def
    by (rule strip_padding_append) (use base64_chars_last [OF sx] pad_cases [of bs] in simp_all)
  moreover have "length ?cs mod 4 \<noteq> 1"
    using pad_cases [of bs] by auto
  moreover have "those (map base64_value ?cs) = Some ?sx"
    by (rule those_base64_value [OF sx])
  moreover have "bytes_of_sextets ?sx = bs"
    by (rule bytes_of_sextets_of_bytes [OF assms])
  ultimately show ?thesis
    by (simp add: atob_def base64_encode_no_whitespace [OF assms])
qed

lemma decode_encode:
  "encode b = Inr (base64_encode (map unat (map ucast b :: 16 word list)))
   \<and> decode (base64_encode (map unat (map ucast b :: 16 word list))) = Inr b"
proof -
  let ?bs = "map unat (map ucast b :: 16 word list)"
  have enc: "encode b = Inr (base64_encode ?bs)"
    by (simp add: encode_def btoa_def list_ex_iff ucast_byte_le)
  have "\<forall>n \<in> set ?bs. n < 256"
    by (auto simp: unat_ucast_byte unat_byte_bound)
  then have "atob (base64_encode ?bs) = Inr (map of_nat ?bs)"
    by (rule atob_base64_encode)
  moreover have "map ucast (map of_nat ?bs :: 16 word list) = b"
    by (simp add: comp_def ucast_roundtrip)
  ultimately have "decode (base64_encode ?bs) = Inr b"
    by (simp add: decode_def)
  with enc show ?thesis by blast
qed

text \<open>
  Claim C2: for every byte array \<open>b\<close>, \<open>encode b\<close> returns a string and \<open>decode\<close> of
  that string returns a byte array equal to \<open>b\<close>, element for element and of the same
  length.
\<close>

theorem decode_encode_roundtrip:
  "\<exists>s. encode b = Inr s \<and> decode s = Inr b"
  using decode_encode [of b] by blast

theorem decode_encode_roundtrip_witness:
  "encode [77, 97] = Inr (js ''TWE='') \<and> decode (js ''TWE='') = Inr [77, 97]"
  using decode_encode_roundtrip [of "[77, 97]"]
  by (simp add: encode_def btoa_def base64_encode_def js_def base64_char_def
      base64_alphabet_def)

section \<open>createBlob: clamping, scaling and the 16-bit values\<close>







section \<open>decodeAudioData: frames and samples\<close>










section \<open>parseTranslatedConversation: the entries returned\<close>

lemma len_prefixes: "length (js ''User: '') = 6" "length (js ''AI: '') = 4"
  by (simp_all add: js_def)

lemma parse_line_prefixed:
  "line_prefix l = Some (r, first) \<Longrightarrow>
   parse_line (p, cr, ct) l = (push_current cr ct p, Some r, first)"
  by (auto simp: line_prefix_def len_prefixes split: if_splits)

lemma parse_line_plain:
  "line_prefix l = None \<Longrightarrow>
   parse_line (p, cr, ct) l = (p, cr, if ct \<noteq> [] then ct @ js '' '' @ trim l else ct)"
  by (auto simp: line_prefix_def split: if_splits)

lemma join_nonempty: "t \<noteq> [] \<Longrightarrow> foldl (\<lambda>t l. t @ js '' '' @ trim l) t ls \<noteq> []"
  by (induction ls arbitrary: t) simp_all

lemma push_current_append: "push_current cr ct p = p @ push_current cr ct []"
  by (simp add: push_current_def split: option.splits)

lemma parse_lines_entries:
  "parse_finish (foldl parse_line (p, cr, ct) ls)
     = p @ push_current cr
            (if ct \<noteq> [] then foldl (\<lambda>t l. t @ js '' '' @ trim l) ct (continuation ls) else ct) []
         @ entries_with_text ls"
proof (induction ls arbitrary: p cr ct)
  case Nil
  show ?case
    using push_current_append [of cr ct p] by (simp add: parse_finish_def continuation_def)
next
  case (Cons l ls)
  show ?case
  proof (cases "line_prefix l")
    case None
    then show ?thesis
      by (simp add: parse_line_plain Cons.IH continuation_def del: parse_line.simps)
  next
    case (Some rf)
    obtain r first where rf: "rf = (r, first)" by (cases rf)
    have step: "parse_line (p, cr, ct) l = (push_current cr ct p, Some r, first)"
      by (rule parse_line_prefixed) (simp add: Some rf)
    have cont: "continuation (l # ls) = []"
      using Some by (simp add: continuation_def)
    have new: "push_current (Some r)
          (if first \<noteq> [] then foldl (\<lambda>t l. t @ js '' '' @ trim l) first (continuation ls)
           else first) [] @ entries_with_text ls
        = entries_with_text (l # ls)"
      using Some rf by (simp add: push_current_def entry_text_def join_nonempty)
    have "parse_finish (foldl parse_line (p, cr, ct) (l # ls))
        = push_current cr ct p @ push_current (Some r)
          (if first \<noteq> [] then foldl (\<lambda>t l. t @ js '' '' @ trim l) first (continuation ls)
           else first) [] @ entries_with_text ls"
      by (simp add: step Cons.IH del: parse_line.simps)
    also have "\<dots> = push_current cr ct p @ entries_with_text (l # ls)"
      by (simp only: new)
    also have "\<dots> = p @ push_current cr ct [] @ entries_with_text (l # ls)"
      using push_current_append [of cr ct p] by simp
    finally show ?thesis
      by (simp add: cont)
  qed
qed

text \<open>
  Claim C10, as the code has it: for every input string, \<open>parseTranslatedConversation\<close>
  returns, in the order of their lines, one entry for each line prefixed with \<open>User: \<close> or
  \<open>AI: \<close> that has text after the prefix. The entry has the role of that prefix; its text
  is the text after the prefix followed by the trimmed unprefixed lines up to the next
  prefixed line, joined by single spaces, and trimmed. Unprefixed lines before the first
  prefixed line are discarded. A prefixed line with nothing after its prefix gives no
  entry, and the unprefixed lines after it are discarded as well.
\<close>

theorem parseTranslatedConversation_entries:
  "parseTranslatedConversation translatedText = entries_with_text (split_lines translatedText)"
  using parse_lines_entries [of "[]" None "[]" "split_lines translatedText"]
  by (simp add: parseTranslatedConversation_def parse_finish_def push_current_def)


theorem parseTranslatedConversation_entries_witness:
  "parseTranslatedConversation
     (js ''User: hi'' @ [10] @ js ''  there '' @ [10] @ js ''AI: ok '' @ [10] @ js ''AI: '' @ [10] @ js ''x'')
   = [(User, js ''hi there''), (AI, js ''ok'')]"
  using parseTranslatedConversation_entries
    [of "js ''User: hi'' @ [10] @ js ''  there '' @ [10] @ js ''AI: ok '' @ [10] @ js ''AI: '' @ [10] @ js ''x''"]
  by (simp add: js_def line_prefix_def startsWith_def continuation_def entry_text_def trim_def
      is_js_whitespace_def)

text \<open>
  Claim C10 as stated fails on the two lines \<open>User: \<close> and \<open>hello\<close>: the second line
  follows a prefixed line, so by the claim it is appended to the entry that line opened;
  the code returns no entry at all.
\<close>

theorem parseTranslatedConversation_drops_empty_entry:
  "parseTranslatedConversation (js ''User: '' @ [10] @ js ''hello'') = []
   \<and> parseTranslatedConversation_spec (js ''User: '' @ [10] @ js ''hello'') = [(User, js ''hello'')]"
  by (simp add: parseTranslatedConversation_def parseTranslatedConversation_spec_def
      parse_finish_def push_current_def js_def line_prefix_def startsWith_def continuation_def
      entry_text_def trim_def is_js_whitespace_def)

section \<open>The message handler\<close>

lemma schedule_audio_Inl:
  assumes "schedule_audio ct b s = Inl x"
  shows "x = s\<lparr>isAgentTyping := False, status := Speaking,
                 nextStartTime := max (nextStartTime s) ct\<rparr>"
  using assms by (auto simp: schedule_audio_def Let_def split: sum.splits)

lemma schedule_audio_Inr:
  assumes "schedule_audio ct b s = Inr x"
  shows "\<exists>bytes audioBuffer. decode b = Inr bytes
           \<and> decodeAudioData bytes 24000 1 = Inr audioBuffer
           \<and> x = s\<lparr>isAgentTyping := False, status := Speaking,
                    nextStartTime := max (nextStartTime s) ct + duration audioBuffer,
                    started := started s @ [(max (nextStartTime s) ct, duration audioBuffer)],
                    sources := sources s @ [length (started s)]\<rparr>"
  using assms by (auto simp: schedule_audio_def Let_def split: sum.splits)

section \<open>Typing speed\<close>






lemma onmessage_shape:
  obtains s3 where
    "s3 = accumulate_transcription m
            (case functionCalls m of None \<Rightarrow> s | Some fcs \<Rightarrow> handle_function_calls fcs s)
     \<or> (\<exists>b. schedule_audio ct b (accumulate_transcription m
            (case functionCalls m of None \<Rightarrow> s | Some fcs \<Rightarrow> handle_function_calls fcs s)) = Inl s3)
     \<or> (\<exists>b. schedule_audio ct b (accumulate_transcription m
            (case functionCalls m of None \<Rightarrow> s | Some fcs \<Rightarrow> handle_function_calls fcs s)) = Inr s3)"
    "onmessage m ct i j s = s3 \<or> onmessage m ct i j s = turn_complete i j s3"
proof -
  let ?s2 = "accumulate_transcription m
            (case functionCalls m of None \<Rightarrow> s | Some fcs \<Rightarrow> handle_function_calls fcs s)"
  show ?thesis
  proof (cases "inlineData m")
    case None
    show ?thesis
      by (rule that [of ?s2]) (simp_all add: onmessage_def Let_def None)
  next
    case (Some b)
    show ?thesis
    proof (cases "b = []")
      case True
      show ?thesis
        by (rule that [of ?s2]) (simp_all add: onmessage_def Let_def Some True)
    next
      case False
      show ?thesis
      proof (cases "schedule_audio ct b ?s2")
        case (Inl x)
        show ?thesis
          by (rule that [of x]) (use Inl in \<open>auto simp: onmessage_def Let_def Some False\<close>)
      next
        case (Inr x)
        show ?thesis
          by (rule that [of x]) (use Inr in \<open>auto simp: onmessage_def Let_def Some False\<close>)
      qed
    qed
  qed
qed
















section \<open>Tool calls and the state they set\<close>











section \<open>startSession: failures\<close>

lemma trim_nonblank:
  assumes "\<not> is_js_whitespace c"
  shows "trim (c # cs) \<noteq> []"
proof -
  have "dropWhile is_js_whitespace (c # cs) = c # cs"
    using assms by simp
  moreover have "dropWhile is_js_whitespace (rev (c # cs)) \<noteq> []"
    using assms by (auto simp: dropWhile_eq_Nil_conv)
  ultimately show ?thesis
    by (simp add: trim_def)
qed

lemma capital_not_whitespace:
  "\<not> is_js_whitespace 77" "\<not> is_js_whitespace 78" "\<not> is_js_whitespace 70"
  by (simp_all add: is_js_whitespace_def)

lemma start_error_message_cases:
  "start_error_message name message
     = js ''Microphone not found. Please ensure a microphone is connected and enabled.''
   \<or> start_error_message name message
     = js ''Microphone access denied. Please allow microphone permissions in your browser settings.''
   \<or> start_error_message name message
     = js ''Microphone is in use or not accessible. Please check if another application is using it.''
   \<or> start_error_message name message = js ''Failed to start session: '' @ message"
  by (simp add: start_error_message_def)

lemma start_error_message_nonblank: "trim (start_error_message name message) \<noteq> []"
  using start_error_message_cases [of name message]
  by (auto simp: js_def trim_nonblank capital_not_whitespace)

lemma no_microphone_message_nonblank:
  "trim (js ''No microphone devices found. Please connect a microphone and ensure it is enabled.'') \<noteq> []"
  by (simp add: js_def trim_nonblank capital_not_whitespace)

lemma session_setup_frame:
  "isActive (session_setup reached s) = isActive s"
  "transcriptions (session_setup reached s) = transcriptions s"
  by (simp_all add: session_setup_def Let_def)

lemma startSession_Failed:
  assumes "\<not> isConnecting s" "\<not> isActive s"
  shows "status (startSession initialText (Failed reached name message) new_id s) = Error"
    and "isActive (startSession initialText (Failed reached name message) new_id s) = False"
    and "isConnecting (startSession initialText (Failed reached name message) new_id s) = False"
    and "transcriptions (startSession initialText (Failed reached name message) new_id s)
          = transcriptions s @
            [\<lparr>item_text = start_error_message name message, item_role = AI, item_id = new_id,
              isVerified = None, translation = None\<rparr>]"
  using assms start_error_message_nonblank [of name message]
  by (simp_all add: startSession_def addTranscription_def Let_def session_setup_frame)

lemma startSession_NoAudioInput:
  assumes "\<not> isConnecting s" "\<not> isActive s"
  shows "status (startSession initialText NoAudioInput new_id s) = Error"
    and "isActive (startSession initialText NoAudioInput new_id s) = False"
    and "isConnecting (startSession initialText NoAudioInput new_id s) = False"
    and "transcriptions (startSession initialText NoAudioInput new_id s)
          = transcriptions s @
            [\<lparr>item_text = js ''No microphone devices found. Please connect a microphone and ensure it is enabled.'',
              item_role = AI, item_id = new_id, isVerified = None, translation = None\<rparr>]"
  using assms no_microphone_message_nonblank
  by (simp_all add: startSession_def addTranscription_def Let_def)

lemma start_error_message_named:
  "name = js ''NotFoundError'' \<or> name = js ''DevicesNotFoundError'' \<Longrightarrow>
     start_error_message name message
       = js ''Microphone not found. Please ensure a microphone is connected and enabled.''"
  "name = js ''NotAllowedError'' \<or> name = js ''PermissionDeniedError'' \<Longrightarrow>
     start_error_message name message
       = js ''Microphone access denied. Please allow microphone permissions in your browser settings.''"
  "name = js ''NotReadableError'' \<or> name = js ''TrackStartError'' \<Longrightarrow>
     start_error_message name message
       = js ''Microphone is in use or not accessible. Please check if another application is using it.''"
  by (auto simp: start_error_message_def js_def)


text \<open>
  Claim C6: when \<open>startSession\<close> passes its guard and then fails with a browser
  permission or device error (\<open>NotFoundError\<close>, \<open>NotAllowedError\<close>, \<open>NotReadableError\<close> or
  their aliases \<open>DevicesNotFoundError\<close>, \<open>PermissionDeniedError\<close>, \<open>TrackStartError\<close>),
  wherever in the \<open>try\<close> block the error is thrown, the status becomes \<open>Error\<close>, the
  message for that error is appended to the transcript as an item of the assistant,
  \<open>isActive\<close> is still false and \<open>isConnecting\<close> is false again. The same holds when no
  audio input device is found.
\<close>

theorem startSession_device_error:
  assumes "\<not> isConnecting s" and "\<not> isActive s"
    and "name \<in> {js ''NotFoundError'', js ''DevicesNotFoundError'', js ''NotAllowedError'',
                  js ''PermissionDeniedError'', js ''NotReadableError'', js ''TrackStartError''}"
  shows "status (startSession initialText (Failed reached name message) new_id s) = Error
     \<and> isActive (startSession initialText (Failed reached name message) new_id s) = False
     \<and> isConnecting (startSession initialText (Failed reached name message) new_id s) = False
     \<and> transcriptions (startSession initialText (Failed reached name message) new_id s)
          = transcriptions s @
            [\<lparr>item_text = start_error_message name message, item_role = AI, item_id = new_id,
              isVerified = None, translation = None\<rparr>]
     \<and> start_error_message name message
          = (if name = js ''NotFoundError'' \<or> name = js ''DevicesNotFoundError'' then
               js ''Microphone not found. Please ensure a microphone is connected and enabled.''
             else if name = js ''NotAllowedError'' \<or> name = js ''PermissionDeniedError'' then
               js ''Microphone access denied. Please allow microphone permissions in your browser settings.''
             else
               js ''Microphone is in use or not accessible. Please check if another application is using it.'')
     \<and> status (startSession initialText NoAudioInput new_id s) = Error
     \<and> isActive (startSession initialText NoAudioInput new_id s) = False
     \<and> isConnecting (startSession initialText NoAudioInput new_id s) = False
     \<and> transcriptions (startSession initialText NoAudioInput new_id s)
          = transcriptions s @
            [\<lparr>item_text = js ''No microphone devices found. Please connect a microphone and ensure it is enabled.'',
              item_role = AI, item_id = new_id, isVerified = None, translation = None\<rparr>]"
proof -
  have msg: "start_error_message name message
      = (if name = js ''NotFoundError'' \<or> name = js ''DevicesNotFoundError'' then
           js ''Microphone not found. Please ensure a microphone is connected and enabled.''
         else if name = js ''NotAllowedError'' \<or> name = js ''PermissionDeniedError'' then
           js ''Microphone access denied. Please allow microphone permissions in your browser settings.''
         else
           js ''Microphone is in use or not accessible. Please check if another application is using it.'')"
    using assms(3) start_error_message_named [of name message] by auto
  show ?thesis
    using startSession_Failed [OF assms(1,2), of initialText reached name message new_id]
      startSession_NoAudioInput [OF assms(1,2), of initialText new_id] msg
    by (simp only: simp_thms)
qed

theorem startSession_device_error_witness:
  "\<not> isConnecting (initial_state False Map.empty)
   \<and> \<not> isActive (initial_state False Map.empty)
   \<and> status (startSession None (Failed BeforeStream (js ''NotAllowedError'') (js ''denied''))
        (js ''id1'') (initial_state False Map.empty)) = Error
   \<and> isConnecting (startSession None (Failed BeforeStream (js ''NotAllowedError'') (js ''denied''))
        (js ''id1'') (initial_state False Map.empty)) = False
   \<and> map item_text (transcriptions
        (startSession None (Failed BeforeStream (js ''NotAllowedError'') (js ''denied''))
        (js ''id1'') (initial_state False Map.empty)))
       = [js ''Microphone access denied. Please allow microphone permissions in your browser settings.'']"
proof -
  have 1: "\<not> isConnecting (initial_state False Map.empty)"
    and 2: "\<not> isActive (initial_state False Map.empty)"
    and 0: "transcriptions (initial_state False Map.empty) = []"
    by (simp_all add: initial_state_def)
  have 3: "js ''NotAllowedError'' \<in> {js ''NotFoundError'', js ''DevicesNotFoundError'',
      js ''NotAllowedError'', js ''PermissionDeniedError'', js ''NotReadableError'',
      js ''TrackStartError''}"
    by simp
  have 4: "js ''NotAllowedError'' \<noteq> js ''NotFoundError''"
    "js ''NotAllowedError'' \<noteq> js ''DevicesNotFoundError''"
    by (simp_all add: js_def)
  show ?thesis
    using startSession_device_error [OF 1 2 3, of None BeforeStream "js ''denied''" "js ''id1''"]
      1 2 0 4
    by simp
qed

section \<open>Durable storage\<close>














section \<open>The transcript\<close>

lemma apply_translation_erased:
  "(apply_translation p ix)\<lparr>translation := None\<rparr> = (snd ix)\<lparr>translation := None\<rparr>"
  by (cases ix) (simp add: apply_translation_def split: option.splits)

lemma map_apply_translation_erased:
  "map (\<lambda>t. t\<lparr>translation := None\<rparr>) (map (apply_translation p) (enumerate n ts))
     = map (\<lambda>t. t\<lparr>translation := None\<rparr>) ts"
  by (induction ts arbitrary: n) (simp_all add: apply_translation_erased)

lemma transcriptions_addTranscription:
  "prefix (transcriptions s) (transcriptions (addTranscription i t r v tr s))"
  by (simp add: addTranscription_def)

lemma transcriptions_translate_failed:
  "prefix (transcriptions s) (transcriptions (translateFullConversation TranslateFailed i s))"
  by (simp add: translateFullConversation_def addTranscription_def Let_def)

lemma transcriptions_translated:
  "map (\<lambda>t. t\<lparr>translation := None\<rparr>) (transcriptions (translateFullConversation (Translated t) i s))
     = map (\<lambda>t. t\<lparr>translation := None\<rparr>) (transcriptions s)"
  by (simp add: translateFullConversation_def Let_def map_apply_translation_erased
      del: map_map)

lemma transcriptions_function_call_append:
  assumes "\<not> returns_translation fc"
  shows "prefix (transcriptions s) (transcriptions (handle_function_call fc s))"
proof (cases fc)
  case (translate_conversation reply i)
  with assms have "reply = TranslateFailed" by (cases reply) simp_all
  with translate_conversation show ?thesis
    by (simp add: transcriptions_translate_failed)
qed (simp_all split: option.splits)

lemma transcriptions_function_call_kept:
  "prefix (map (\<lambda>t. t\<lparr>translation := None\<rparr>) (transcriptions s))
     (map (\<lambda>t. t\<lparr>translation := None\<rparr>) (transcriptions (handle_function_call fc s)))"
proof (cases "returns_translation fc")
  case True
  then obtain t i where "fc = translate_conversation (Translated t) i"
    by (cases fc rule: returns_translation.cases) simp_all
  then show ?thesis
    by (simp only: handle_function_call.simps transcriptions_translated prefix_order.refl)
next
  case False
  then show ?thesis
    by (intro map_mono_prefix transcriptions_function_call_append)
qed

lemma transcriptions_function_calls_append:
  assumes "\<not> list_ex returns_translation fcs"
  shows "prefix (transcriptions s) (transcriptions (handle_function_calls fcs s))"
  using assms unfolding handle_function_calls_def
proof (induction fcs arbitrary: s)
  case Nil
  show ?case by simp
next
  case (Cons fc fcs)
  then have "\<not> returns_translation fc" "\<not> list_ex returns_translation fcs"
    by simp_all
  then have a: "prefix (transcriptions s) (transcriptions (handle_function_call fc s))"
    and b: "prefix (transcriptions (handle_function_call fc s))
       (transcriptions (fold handle_function_call fcs (handle_function_call fc s)))"
    by (simp_all add: transcriptions_function_call_append Cons.IH)
  from prefix_order.trans [OF a b] show ?case
    by simp
qed

lemma transcriptions_function_calls_kept:
  "prefix (map (\<lambda>t. t\<lparr>translation := None\<rparr>) (transcriptions s))
     (map (\<lambda>t. t\<lparr>translation := None\<rparr>) (transcriptions (handle_function_calls fcs s)))"
  unfolding handle_function_calls_def
proof (induction fcs arbitrary: s)
  case Nil
  show ?case by simp
next
  case (Cons fc fcs)
  from prefix_order.trans
    [OF transcriptions_function_call_kept [of s fc] Cons.IH [of "handle_function_call fc s"]]
  show ?case
    by simp
qed

lemma transcriptions_turn_complete:
  "prefix (transcriptions s) (transcriptions (turn_complete i j s))"
proof -
  let ?s1 = "if currentUserTranscription s \<noteq> [] then
                  (addTranscription i (currentUserTranscription s) User None None s)
                    \<lparr>currentUserTranscription := [], status := Processing\<rparr>
                else s"
  have 1: "prefix (transcriptions s) (transcriptions ?s1)"
    by (simp add: transcriptions_addTranscription)
  have 2: "prefix (transcriptions ?s1) (transcriptions (turn_complete i j s))"
    unfolding turn_complete_def Let_def
    by (simp add: transcriptions_addTranscription)
  from 1 2 show ?thesis by (rule prefix_order.trans)
qed

lemma transcriptions_accumulate:
  "transcriptions (accumulate_transcription m s) = transcriptions s"
  by (simp add: accumulate_transcription_def split: option.splits)

lemma transcriptions_schedule_audio:
  "schedule_audio ct b s = Inl x \<or> schedule_audio ct b s = Inr x
     \<Longrightarrow> transcriptions x = transcriptions s"
  by (auto dest!: schedule_audio_Inl schedule_audio_Inr)

lemma transcriptions_onmessage:
  "prefix (transcriptions (case functionCalls m of None \<Rightarrow> s
                            | Some fcs \<Rightarrow> handle_function_calls fcs s))
     (transcriptions (onmessage m ct i j s))"
proof -
  let ?s1 = "case functionCalls m of None \<Rightarrow> s | Some fcs \<Rightarrow> handle_function_calls fcs s"
  obtain s3 where s3:
    "s3 = accumulate_transcription m ?s1
     \<or> (\<exists>b. schedule_audio ct b (accumulate_transcription m ?s1) = Inl s3)
     \<or> (\<exists>b. schedule_audio ct b (accumulate_transcription m ?s1) = Inr s3)"
    and res: "onmessage m ct i j s = s3 \<or> onmessage m ct i j s = turn_complete i j s3"
    by (rule onmessage_shape)
  from s3 have "transcriptions s3 = transcriptions ?s1"
    using transcriptions_schedule_audio transcriptions_accumulate by metis
  with res transcriptions_turn_complete [of s3 i j] show ?thesis
    by auto
qed

lemma transcriptions_startSession:
  "prefix (transcriptions s) (transcriptions (startSession t outcome i s))"
  by (simp add: startSession_def session_setup_def addTranscription_def Let_def
      split: start_outcome.splits)

lemma transcriptions_onopen: "prefix (transcriptions s) (transcriptions (onopen i s))"
  by (simp add: onopen_def addTranscription_def Let_def split: option.splits)

lemma transcriptions_misc:
  "transcriptions (stopSession s) = transcriptions s"
  "transcriptions (onerror s) = transcriptions s"
  "transcriptions (source_ended k s) = transcriptions s"
  "transcriptions (handleToggleAutoAccentDetection b th s) = transcriptions s"
  "transcriptions (handleInitiateVoiceTraining s) = transcriptions s"
  "transcriptions (handleExportRecording r s) = transcriptions s"
  "transcriptions (recorder_dataavailable n s) = transcriptions s"
  "transcriptions (voice_training_stage k s) = transcriptions s"
  "transcriptions (voice_training_reset s) = transcriptions s"
  "transcriptions (unmount s) = transcriptions s"
  by (simp_all add: onerror_def stopSession_def source_ended_def
      handleToggleAutoAccentDetection_def saveAutoAccentDetectionState_def
      handleInitiateVoiceTraining_def handleExportRecording_def
      recorder_dataavailable_def voice_training_stage_def voice_training_reset_def unmount_def
      Let_def split: option.splits)

lemma step_appends:
  assumes "\<not> translates e"
  shows "prefix (transcriptions s) (transcriptions (step e s))"
proof (cases e)
  case (Session_Message m ct i j)
  let ?s1 = "case functionCalls m of None \<Rightarrow> s | Some fcs \<Rightarrow> handle_function_calls fcs s"
  have "prefix (transcriptions s) (transcriptions ?s1)"
    using assms Session_Message
    by (auto simp: transcriptions_function_calls_append split: option.splits)
  from prefix_order.trans [OF this transcriptions_onmessage [where m = m and s = s]]
  show ?thesis
    by (simp add: Session_Message)
qed (simp_all add: transcriptions_startSession transcriptions_onopen transcriptions_misc)

lemma step_keeps:
  "prefix (map (\<lambda>t. t\<lparr>translation := None\<rparr>) (transcriptions s))
     (map (\<lambda>t. t\<lparr>translation := None\<rparr>) (transcriptions (step e s)))"
proof (cases "translates e")
  case False
  then show ?thesis by (intro map_mono_prefix step_appends)
next
  case True
  then obtain m ct i j where e: "e = Session_Message m ct i j"
    by (cases e) simp_all
  let ?s1 = "case functionCalls m of None \<Rightarrow> s | Some fcs \<Rightarrow> handle_function_calls fcs s"
  have "prefix (map (\<lambda>t. t\<lparr>translation := None\<rparr>) (transcriptions s))
     (map (\<lambda>t. t\<lparr>translation := None\<rparr>) (transcriptions ?s1))"
    by (simp add: transcriptions_function_calls_kept split: option.splits)
  moreover have "prefix (map (\<lambda>t. t\<lparr>translation := None\<rparr>) (transcriptions ?s1))
     (map (\<lambda>t. t\<lparr>translation := None\<rparr>) (transcriptions (onmessage m ct i j s)))"
    by (intro map_mono_prefix transcriptions_onmessage)
  ultimately have "prefix (map (\<lambda>t. t\<lparr>translation := None\<rparr>) (transcriptions s))
     (map (\<lambda>t. t\<lparr>translation := None\<rparr>) (transcriptions (onmessage m ct i j s)))"
    by (rule prefix_order.trans)
  then show ?thesis
    by (simp add: e)
qed


lemma erased_equal:
  fixes a b :: TranscriptItem
  assumes "a\<lparr>translation := None\<rparr> = b\<lparr>translation := None\<rparr>"
  shows "a = b\<lparr>translation := translation a\<rparr>"
  using assms by (cases a, cases b) simp

lemma prefix_erased_nth:
  fixes old new :: "TranscriptItem list"
  assumes "prefix (map (\<lambda>t. t\<lparr>translation := None\<rparr>) old) (map (\<lambda>t. t\<lparr>translation := None\<rparr>) new)"
  shows "length old \<le> length new"
    and "\<forall>i < length old. new ! i = (old ! i)\<lparr>translation := translation (new ! i)\<rparr>"
proof -
  from assms show len: "length old \<le> length new"
    using prefix_length_le by fastforce
  show "\<forall>i < length old. new ! i = (old ! i)\<lparr>translation := translation (new ! i)\<rparr>"
  proof (intro allI impI)
    fix i
    assume i: "i < length old"
    from assms obtain zs where
      zs: "map (\<lambda>t. t\<lparr>translation := None\<rparr>) new = map (\<lambda>t. t\<lparr>translation := None\<rparr>) old @ zs"
      by (auto simp: prefix_def)
    from i have "(map (\<lambda>t. t\<lparr>translation := None\<rparr>) old @ zs) ! i = (old ! i)\<lparr>translation := None\<rparr>"
      by (simp add: nth_append)
    moreover from i len have "map (\<lambda>t. t\<lparr>translation := None\<rparr>) new ! i = (new ! i)\<lparr>translation := None\<rparr>"
      by simp
    ultimately have "(new ! i)\<lparr>translation := None\<rparr> = (old ! i)\<lparr>translation := None\<rparr>"
      using zs by simp
    then show "new ! i = (old ! i)\<lparr>translation := translation (new ! i)\<rparr>"
      by (rule erased_equal)
  qed
qed

text \<open>
  Claim C5, as the code has it: every operation of the component other than a translation
  only appends to the transcript, leaving all previous items unchanged and in order, with
  the new items at the end. A translation (a message with a \<open>translate_conversation\<close> call
  whose request returned) keeps the number and the order of the previous items and their
  text, role, id and verification flag, and may replace their \<open>translation\<close> field.
\<close>

theorem transcript_appended_or_retranslated:
  "(\<not> translates e \<longrightarrow> (\<exists>added. transcriptions (step e s) = transcriptions s @ added))
   \<and> length (transcriptions s) \<le> length (transcriptions (step e s))
   \<and> (\<forall>i < length (transcriptions s).
         transcriptions (step e s) ! i
           = (transcriptions s ! i)\<lparr>translation := translation (transcriptions (step e s) ! i)\<rparr>)"
  using step_appends [of e s] prefix_erased_nth [OF step_keeps [of s e]]
  by (simp add: prefix_def)

theorem transcript_appended_or_retranslated_witness:
  "\<not> translates (Session_Open (js ''1''))
   \<and> transcriptions (step (Session_Open (js ''1''))
        (step (Click_StartSession (Some (js ''hi'')) Connecting (js ''0''))
           (initial_state False Map.empty)))
     = transcriptions (step (Click_StartSession (Some (js ''hi'')) Connecting (js ''0''))
           (initial_state False Map.empty))
       @ [\<lparr>item_text = js ''hi'', item_role = User, item_id = js ''1'', isVerified = None,
           translation = None\<rparr>]"
  using transcript_appended_or_retranslated
    [of "Session_Open (js ''1'')"
        "step (Click_StartSession (Some (js ''hi'')) Connecting (js ''0''))
           (initial_state False Map.empty)"]
  by (simp add: initial_state_def startSession_def session_setup_def onopen_def
      addTranscription_def Let_def js_def trim_def is_js_whitespace_def)

text \<open>
  Claim C5 as stated fails. A session is started with the text \<open>hi\<close>, which becomes the
  first item of the transcript when the session opens; a \<open>translate_conversation\<close> call
  whose request returns \<open>User: hello\<close> then changes that item: the previous items are not
  all unchanged.
\<close>

theorem translation_changes_previous_item:
  "transcriptions
     (run [Click_StartSession (Some (js ''hi'')) Connecting (js ''0''), Session_Open (js ''1'')]
        (initial_state False Map.empty))
     = [\<lparr>item_text = js ''hi'', item_role = User, item_id = js ''1'', isVerified = None,
          translation = None\<rparr>]
   \<and> transcriptions
     (run [Click_StartSession (Some (js ''hi'')) Connecting (js ''0''), Session_Open (js ''1''),
           Session_Message
             \<lparr>functionCalls =
                Some [translate_conversation (Translated (Some (js ''User: hello''))) (js ''2'')],
              outputTranscription = None, inputTranscription = None, inlineData = None,
              turnComplete = False\<rparr> 0 (js ''3'') (js ''4'')]
        (initial_state False Map.empty))
     = [\<lparr>item_text = js ''hi'', item_role = User, item_id = js ''1'', isVerified = None,
          translation = Some (js ''hello'')\<rparr>]"
  by (simp add: run_def initial_state_def startSession_def session_setup_def onopen_def
      addTranscription_def onmessage_def handle_function_calls_def
      translateFullConversation_def accumulate_transcription_def apply_translation_def
      parseTranslatedConversation_def parse_finish_def push_current_def startsWith_def
      Let_def js_def trim_def is_js_whitespace_def)

section \<open>Playback scheduling\<close>





















end
